theory Spec2Isabelle
  imports Complex_Main
begin

section \<open>The amortization engine of \<^verbatim>\<open>src/utils/calculator.ts\<close>\<close>

text \<open>
  The two exported functions of \<^verbatim>\<open>calculator.ts\<close> are embedded twice, branch for
  branch.

  \<^item> Over the reals, with exact arithmetic (\<open>calculateEMI\<close>,
    \<open>generateAmortizationSchedule\<close>). This embedding carries the properties that come from
    the control flow alone: the guards, the treatment of a negative rate, the chaining of the
    rows and the effect of prepayments on the number of rows.

  \<^item> Over the IEEE-754 binary64 numbers that a TypeScript \<^verbatim>\<open>number\<close> is
    (\<open>calculateEMI64\<close>, \<open>generateAmortizationSchedule64\<close>): every arithmetic operation
    rounds its exact result to the nearest double, ties to even, overflows to an infinity, and
    propagates \<^verbatim>\<open>NaN\<close>. This embedding carries every property whose truth depends on
    the arithmetic: the installment formula, the balance identity of a row, the clamped
    prepayment, the sums, and the number of rows of a schedule without prepayments.

  The tenure is an integer (the caller passes \<^verbatim>\<open>Math.round(...)\<close>), so
  \<^verbatim>\<open>Math.pow(1 + monthlyRate, tenureInMonths)\<close> has an integer exponent. The loop counter
  \<^verbatim>\<open>month\<close> is an integer as well: it counts exactly as long as it is below \<open>2\<^sup>5\<^sup>3\<close>,
  which no run reaches.
\<close>

subsection \<open>Data model (\<^verbatim>\<open>types.ts\<close>)\<close>

text \<open>
  \<^verbatim>\<open>AmortizationData\<close>, with the type of a \<^verbatim>\<open>number\<close> as a parameter: \<open>real\<close> for
  the exact embedding, \<open>number\<close> (below) for the binary64 one.
\<close>

record 'n AmortizationData =
  month :: int
  openingBalance :: 'n
  interest :: 'n
  principal :: 'n
  prepayment :: 'n
  totalPayment :: 'n
  closingBalance :: 'n

text \<open>\<^verbatim>\<open>Prepayments = Record<number, number>\<close>: a sparse map from month to amount.\<close>

type_synonym Prepayments = "int \<rightharpoonup> real"

subsection \<open>\<^verbatim>\<open>calculateEMI\<close>, exact arithmetic\<close>

definition calculateEMI :: "real \<Rightarrow> real \<Rightarrow> int \<Rightarrow> real" where
  "calculateEMI principal' annualRate tenureInMonths =
     (if principal' \<le> 0 \<or> tenureInMonths \<le> 0 then 0
      else if annualRate \<le> 0 then principal' / real_of_int tenureInMonths
      else
        let monthlyRate = annualRate / 12 / 100;
            emi = (principal' * monthlyRate * (1 + monthlyRate) ^ nat tenureInMonths) /
                  ((1 + monthlyRate) ^ nat tenureInMonths - 1)
        in emi)"

subsection \<open>\<^verbatim>\<open>generateAmortizationSchedule\<close>, exact arithmetic\<close>

text \<open>
  \<^verbatim>\<open>prepayments[month] || 0\<close>: a missing key reads \<^verbatim>\<open>undefined\<close> and a stored
  \<^verbatim>\<open>0\<close> is falsy; both give \<^verbatim>\<open>0\<close>. Every other stored number, negative ones
  included, is used as it is.
\<close>

definition prepaymentAt :: "Prepayments \<Rightarrow> int \<Rightarrow> real" where
  "prepaymentAt prepayments month' =
     (case prepayments month' of
        None \<Rightarrow> 0
      | Some v \<Rightarrow> if v = 0 then 0 else v)"

text \<open>
  One pass through the body of the \<^verbatim>\<open>for\<close> loop (lines 34 to 67): the row that is
  pushed, and the value assigned to \<^verbatim>\<open>remainingBalance\<close>.
\<close>

definition loopBody ::
  "real \<Rightarrow> real \<Rightarrow> Prepayments \<Rightarrow> int \<Rightarrow> real \<Rightarrow> real AmortizationData \<times> real" where
  "loopBody baseEMI monthlyRate prepayments month' remainingBalance =
     (let openingBalance = remainingBalance;
          interest = openingBalance * monthlyRate;
          principalPaid = min (baseEMI - interest) openingBalance;
          principalPaid = (if principalPaid < 0 then 0 else principalPaid);
          prepayment = prepaymentAt prepayments month';
          closingBalance = openingBalance - principalPaid - prepayment;
          (actualPrepayment, closingBalance) =
             (if closingBalance < 0 then (prepayment + closingBalance, 0)
              else (prepayment, closingBalance));
          totalPayment = interest + principalPaid + actualPrepayment
      in (\<lparr>month = month',
           openingBalance = openingBalance,
           interest = max 0 interest,
           principal = max 0 principalPaid,
           prepayment = max 0 actualPrepayment,
           totalPayment = max 0 totalPayment,
           closingBalance = max 0 closingBalance\<rparr>,
          closingBalance))"

text \<open>
  The \<^verbatim>\<open>for\<close> loop of line 33, with its three variables \<^verbatim>\<open>month\<close>,
  \<^verbatim>\<open>remainingBalance\<close> and \<^verbatim>\<open>schedule\<close> passed explicitly.
\<close>

function scheduleLoop ::
  "real \<Rightarrow> real \<Rightarrow> int \<Rightarrow> Prepayments \<Rightarrow> int \<Rightarrow> real \<Rightarrow> real AmortizationData list
    \<Rightarrow> real AmortizationData list" where
  "scheduleLoop baseEMI monthlyRate tenureInMonths prepayments month' remainingBalance schedule =
     (if month' \<le> tenureInMonths \<and> remainingBalance > 0.01 then
        (let (row, closingBalance) =
               loopBody baseEMI monthlyRate prepayments month' remainingBalance
         in scheduleLoop baseEMI monthlyRate tenureInMonths prepayments (month' + 1)
              closingBalance (schedule @ [row]))
      else schedule)"
  by pat_completeness auto
termination
  by (relation "measure (\<lambda>(e, r, n, p, m, b, s). nat (n + 1 - m))") auto

declare scheduleLoop.simps [simp del]

definition generateAmortizationSchedule ::
  "real \<Rightarrow> real \<Rightarrow> int \<Rightarrow> Prepayments \<Rightarrow> real AmortizationData list" where
  "generateAmortizationSchedule principal' annualRate tenureInMonths prepayments =
     (if principal' \<le> 0 \<or> tenureInMonths \<le> 0 then []
      else
        let remainingBalance = principal';
            monthlyRate = (if annualRate > 0 then annualRate / 12 / 100 else 0);
            baseEMI = calculateEMI principal' annualRate tenureInMonths
        in scheduleLoop baseEMI monthlyRate tenureInMonths prepayments 1 remainingBalance [])"

subsection \<open>Binary64 numbers\<close>

text \<open>
  A \<^verbatim>\<open>number\<close>: a finite double, given by the real number it denotes, one of the two
  infinities, or \<^verbatim>\<open>NaN\<close>. The two zeros are one value \<open>Fin 0\<close>: they compare equal
  in the source, and the only operation that tells them apart, a division by zero, has the
  denominators \<^verbatim>\<open>tenureInMonths\<close>, \<^verbatim>\<open>12\<close>, \<^verbatim>\<open>100\<close> and
  \<^verbatim>\<open>Math.pow(1 + monthlyRate, tenureInMonths) - 1\<close>; the last is the only one that can be
  zero, and then it is the difference of two equal numbers, which is \<^verbatim>\<open>+0\<close>.
\<close>

datatype number = Fin real | PInf | NInf | NaN

text \<open>
  Rounding to the nearest double, ties to even. A positive real is scaled by powers of two
  until it lies in \<open>[2\<^sup>5\<^sup>2, 2\<^sup>5\<^sup>3)\<close>, with the exponent kept between \<open>-1074\<close> (below it
  the doubles are subnormal, with fewer digits) and \<open>971\<close> (above it the result overflows);
  the scaled value is then rounded to the nearest integer, ties to even.
\<close>

definition roundHalfEven :: "real \<Rightarrow> int" where
  "roundHalfEven x =
     (let f = \<lfloor>x\<rfloor>; d = x - of_int f
      in if d < 1 / 2 then f
         else if 1 / 2 < d then f + 1
         else if even f then f else f + 1)"

function scaleDown :: "real \<Rightarrow> int \<Rightarrow> real \<times> int" where
  "scaleDown x e = (if 2 ^ 53 \<le> x \<and> e < 971 then scaleDown (x / 2) (e + 1) else (x, e))"
  by pat_completeness auto
termination
  by (relation "measure (\<lambda>(x, e). nat (971 - e))") auto

function scaleUp :: "real \<Rightarrow> int \<Rightarrow> real \<times> int" where
  "scaleUp x e = (if x < 2 ^ 52 \<and> - 1074 < e then scaleUp (x * 2) (e - 1) else (x, e))"
  by pat_completeness auto
termination
  by (relation "measure (\<lambda>(x, e). nat (e + 1074))") auto

definition roundPos :: "real \<Rightarrow> number" where
  "roundPos x =
     (let (m, e) = (if 2 ^ 53 \<le> x then scaleDown x 0 else scaleUp x 0);
          k = roundHalfEven m
      in if 2 ^ 53 \<le> k \<and> 971 \<le> e then PInf
         else if 0 \<le> e then Fin (of_int k * 2 ^ nat e)
         else Fin (of_int k / 2 ^ nat (- e)))"

fun negN :: "number \<Rightarrow> number" where
  "negN (Fin x) = Fin (- x)"
| "negN PInf = NInf"
| "negN NInf = PInf"
| "negN NaN = NaN"

definition round64 :: "real \<Rightarrow> number" where
  "round64 x = (if x = 0 then Fin 0 else if 0 < x then roundPos x else negN (roundPos (- x)))"

text \<open>
  The comparisons \<^verbatim>\<open><\<close>, \<^verbatim>\<open><=\<close>, \<^verbatim>\<open>>\<close> (false as soon as an operand is
  \<^verbatim>\<open>NaN\<close>) and the operations \<^verbatim>\<open>+\<close>, \<^verbatim>\<open>-\<close>, \<^verbatim>\<open>*\<close>, \<^verbatim>\<open>/\<close>,
  \<^verbatim>\<open>Math.min\<close>, \<^verbatim>\<open>Math.max\<close>.
\<close>

fun ltN :: "number \<Rightarrow> number \<Rightarrow> bool" where
  "ltN NaN b = False"
| "ltN a NaN = False"
| "ltN (Fin x) (Fin y) = (x < y)"
| "ltN (Fin x) PInf = True"
| "ltN (Fin x) NInf = False"
| "ltN PInf b = False"
| "ltN NInf (Fin y) = True"
| "ltN NInf PInf = True"
| "ltN NInf NInf = False"

fun leN :: "number \<Rightarrow> number \<Rightarrow> bool" where
  "leN NaN b = False"
| "leN a NaN = False"
| "leN (Fin x) (Fin y) = (x \<le> y)"
| "leN (Fin x) PInf = True"
| "leN (Fin x) NInf = False"
| "leN PInf (Fin y) = False"
| "leN PInf PInf = True"
| "leN PInf NInf = False"
| "leN NInf b = True"

definition gtN :: "number \<Rightarrow> number \<Rightarrow> bool" where
  "gtN a b = ltN b a"

fun addN :: "number \<Rightarrow> number \<Rightarrow> number" where
  "addN NaN b = NaN"
| "addN a NaN = NaN"
| "addN (Fin x) (Fin y) = round64 (x + y)"
| "addN PInf NInf = NaN"
| "addN NInf PInf = NaN"
| "addN PInf b = PInf"
| "addN NInf b = NInf"
| "addN (Fin x) PInf = PInf"
| "addN (Fin x) NInf = NInf"

definition subN :: "number \<Rightarrow> number \<Rightarrow> number" where
  "subN a b = addN a (negN b)"

fun mulN :: "number \<Rightarrow> number \<Rightarrow> number" where
  "mulN NaN b = NaN"
| "mulN a NaN = NaN"
| "mulN (Fin x) (Fin y) = round64 (x * y)"
| "mulN (Fin x) PInf = (if x = 0 then NaN else if 0 < x then PInf else NInf)"
| "mulN (Fin x) NInf = (if x = 0 then NaN else if 0 < x then NInf else PInf)"
| "mulN PInf (Fin y) = (if y = 0 then NaN else if 0 < y then PInf else NInf)"
| "mulN NInf (Fin y) = (if y = 0 then NaN else if 0 < y then NInf else PInf)"
| "mulN PInf PInf = PInf"
| "mulN PInf NInf = NInf"
| "mulN NInf PInf = NInf"
| "mulN NInf NInf = PInf"

fun divN :: "number \<Rightarrow> number \<Rightarrow> number" where
  "divN NaN b = NaN"
| "divN a NaN = NaN"
| "divN (Fin x) (Fin y) =
     (if y = 0 then (if x = 0 then NaN else if 0 < x then PInf else NInf)
      else round64 (x / y))"
| "divN (Fin x) PInf = Fin 0"
| "divN (Fin x) NInf = Fin 0"
| "divN PInf (Fin y) = (if 0 \<le> y then PInf else NInf)"
| "divN NInf (Fin y) = (if 0 \<le> y then NInf else PInf)"
| "divN PInf PInf = NaN"
| "divN PInf NInf = NaN"
| "divN NInf PInf = NaN"
| "divN NInf NInf = NaN"

definition minN :: "number \<Rightarrow> number \<Rightarrow> number" where
  "minN a b = (if a = NaN \<or> b = NaN then NaN else if ltN b a then b else a)"

definition maxN :: "number \<Rightarrow> number \<Rightarrow> number" where
  "maxN a b = (if a = NaN \<or> b = NaN then NaN else if ltN a b then b else a)"

text \<open>
  \<^verbatim>\<open>Math.pow\<close> is approximated by the implementation, so the functions below take it as
  a parameter and the general theorems hold for every \<open>pow\<close>. For the concrete runs
  \<open>mathPow\<close> is the correctly rounded power with an integer exponent; the runs below only use
  it where the exact power is itself a double (\<open>1\<^sup>1\<^sup>2\<close> and \<open>2\<^sup>5\<^sup>4\<close>).
\<close>

definition mathPow :: "number \<Rightarrow> int \<Rightarrow> number" where
  "mathPow base exponent =
     (if exponent = 0 then Fin 1
      else case base of
        NaN \<Rightarrow> NaN
      | Fin x \<Rightarrow>
          if 0 < exponent then round64 (x ^ nat exponent)
          else if x = 0 then PInf
          else round64 (1 / x ^ nat (- exponent))
      | PInf \<Rightarrow> (if 0 < exponent then PInf else Fin 0)
      | NInf \<Rightarrow> (if 0 < exponent then (if even exponent then PInf else NInf) else Fin 0))"

subsection \<open>\<^verbatim>\<open>calculateEMI\<close>, binary64 arithmetic\<close>

text \<open>
  Lines 4 to 16. The tenure \<open>n\<close> enters the division as the double \<open>Fin (of_int n)\<close>.
\<close>

definition calculateEMI64 ::
  "(number \<Rightarrow> int \<Rightarrow> number) \<Rightarrow> number \<Rightarrow> number \<Rightarrow> int \<Rightarrow> number" where
  "calculateEMI64 pow principal' annualRate tenureInMonths =
     (if leN principal' (Fin 0) \<or> tenureInMonths \<le> 0 then Fin 0
      else if leN annualRate (Fin 0) then divN principal' (Fin (of_int tenureInMonths))
      else
        let monthlyRate = divN (divN annualRate (Fin 12)) (Fin 100);
            emi = divN (mulN (mulN principal' monthlyRate)
                          (pow (addN (Fin 1) monthlyRate) tenureInMonths))
                       (subN (pow (addN (Fin 1) monthlyRate) tenureInMonths) (Fin 1))
        in emi)"

subsection \<open>\<^verbatim>\<open>generateAmortizationSchedule\<close>, binary64 arithmetic\<close>

type_synonym Prepayments64 = "int \<rightharpoonup> number"

text \<open>
  \<^verbatim>\<open>prepayments[month] || 0\<close>: a missing key, a stored zero and a stored \<^verbatim>\<open>NaN\<close>
  are falsy and give \<^verbatim>\<open>0\<close>.
\<close>

definition prepaymentAt64 :: "Prepayments64 \<Rightarrow> int \<Rightarrow> number" where
  "prepaymentAt64 prepayments month' =
     (case prepayments month' of
        None \<Rightarrow> Fin 0
      | Some v \<Rightarrow> if v = Fin 0 \<or> v = NaN then Fin 0 else v)"

text \<open>Lines 34 to 67, every operation rounded.\<close>

definition loopBody64 ::
  "number \<Rightarrow> number \<Rightarrow> Prepayments64 \<Rightarrow> int \<Rightarrow> number \<Rightarrow> number AmortizationData \<times> number" where
  "loopBody64 baseEMI monthlyRate prepayments month' remainingBalance =
     (let openingBalance = remainingBalance;
          interest = mulN openingBalance monthlyRate;
          principalPaid = minN (subN baseEMI interest) openingBalance;
          principalPaid = (if ltN principalPaid (Fin 0) then Fin 0 else principalPaid);
          prepayment = prepaymentAt64 prepayments month';
          closingBalance = subN (subN openingBalance principalPaid) prepayment;
          (actualPrepayment, closingBalance) =
             (if ltN closingBalance (Fin 0) then (addN prepayment closingBalance, Fin 0)
              else (prepayment, closingBalance));
          totalPayment = addN (addN interest principalPaid) actualPrepayment
      in (\<lparr>month = month',
           openingBalance = openingBalance,
           interest = maxN (Fin 0) interest,
           principal = maxN (Fin 0) principalPaid,
           prepayment = maxN (Fin 0) actualPrepayment,
           totalPayment = maxN (Fin 0) totalPayment,
           closingBalance = maxN (Fin 0) closingBalance\<rparr>,
          closingBalance))"

text \<open>The loop of line 33; \<^verbatim>\<open>0.01\<close> is the double nearest to \<open>1/100\<close>.\<close>

function scheduleLoop64 ::
  "number \<Rightarrow> number \<Rightarrow> int \<Rightarrow> Prepayments64 \<Rightarrow> int \<Rightarrow> number
    \<Rightarrow> number AmortizationData list \<Rightarrow> number AmortizationData list" where
  "scheduleLoop64 baseEMI monthlyRate tenureInMonths prepayments month' remainingBalance schedule =
     (if month' \<le> tenureInMonths \<and> gtN remainingBalance (round64 (1 / 100)) then
        (let (row, closingBalance) =
               loopBody64 baseEMI monthlyRate prepayments month' remainingBalance
         in scheduleLoop64 baseEMI monthlyRate tenureInMonths prepayments (month' + 1)
              closingBalance (schedule @ [row]))
      else schedule)"
  by pat_completeness auto
termination
  by (relation "measure (\<lambda>(e, r, n, p, m, b, s). nat (n + 1 - m))") auto

declare scheduleLoop64.simps [simp del]

definition generateAmortizationSchedule64 ::
  "(number \<Rightarrow> int \<Rightarrow> number) \<Rightarrow> number \<Rightarrow> number \<Rightarrow> int \<Rightarrow> Prepayments64
    \<Rightarrow> number AmortizationData list" where
  "generateAmortizationSchedule64 pow principal' annualRate tenureInMonths prepayments =
     (if leN principal' (Fin 0) \<or> tenureInMonths \<le> 0 then []
      else
        let remainingBalance = principal';
            monthlyRate = (if gtN annualRate (Fin 0)
                           then divN (divN annualRate (Fin 12)) (Fin 100) else Fin 0);
            baseEMI = calculateEMI64 pow principal' annualRate tenureInMonths
        in scheduleLoop64 baseEMI monthlyRate tenureInMonths prepayments 1 remainingBalance [])"

section \<open>The loop, exact arithmetic\<close>

lemma scheduleLoop_stop:
  "\<not> (k \<le> n \<and> b > 0.01) \<Longrightarrow> scheduleLoop E r n m k b acc = acc"
  by (subst scheduleLoop.simps) (rule if_not_P)

lemma scheduleLoop_step:
  assumes "k \<le> n" and "b > 0.01"
  shows "scheduleLoop E r n m k b acc =
         scheduleLoop E r n m (k + 1) (snd (loopBody E r m k b)) (acc @ [fst (loopBody E r m k b)])"
proof -
  have "k \<le> n \<and> b > 0.01" using assms by simp
  then have "scheduleLoop E r n m k b acc =
      (let (row, closingBalance) = loopBody E r m k b
       in scheduleLoop E r n m (k + 1) closingBalance (acc @ [row]))"
    by (subst scheduleLoop.simps) (rule if_P)
  then show ?thesis by (simp add: case_prod_beta Let_def)
qed

lemma rows_induct [case_names stop step]:
  fixes Q :: "int \<Rightarrow> real \<Rightarrow> bool"
  assumes stop: "\<And>k b. \<not> (k \<le> n \<and> b > 0.01) \<Longrightarrow> Q k b"
    and step: "\<And>k b. k \<le> n \<Longrightarrow> b > 0.01 \<Longrightarrow> Q (k + 1) (snd (loopBody E r m k b)) \<Longrightarrow> Q k b"
  shows "Q k b"
proof -
  have "\<forall>k b. nat (n + 1 - k) = d \<longrightarrow> Q k b" for d
  proof (induction d)
    case 0
    show ?case
    proof (intro allI impI)
      fix k :: int and b :: real
      assume "nat (n + 1 - k) = 0"
      then have "\<not> (k \<le> n \<and> b > 0.01)" by simp
      then show "Q k b" by (rule stop)
    qed
  next
    case (Suc d)
    show ?case
    proof (intro allI impI)
      fix k :: int and b :: real
      assume d: "nat (n + 1 - k) = Suc d"
      show "Q k b"
      proof (cases "k \<le> n \<and> b > 0.01")
        case False then show ?thesis by (rule stop)
      next
        case True
        have "nat (n + 1 - (k + 1)) = d" using d by simp
        then have q: "Q (k + 1) (snd (loopBody E r m k b))" using Suc.IH by blast
        from True have kn: "k \<le> n" and bpos: "b > 0.01" by simp_all
        show ?thesis by (rule step [OF kn bpos q])
      qed
    qed
  qed
  then show ?thesis by blast
qed

lemma scheduleLoop_append:
  "scheduleLoop E r n m k b acc = acc @ scheduleLoop E r n m k b []"
proof -
  have "\<forall>acc. scheduleLoop E r n m k b acc = acc @ scheduleLoop E r n m k b []"
  proof (induction k b rule: rows_induct [where n = n and E = E and r = r and m = m])
    case (stop k b)
    then show ?case by (simp only: scheduleLoop_stop append_Nil2 simp_thms)
  next
    case (step k b)
    show ?case
    proof
      fix acc
      let ?row = "fst (loopBody E r m k b)" and ?c = "snd (loopBody E r m k b)"
      have "scheduleLoop E r n m k b acc = scheduleLoop E r n m (k + 1) ?c (acc @ [?row])"
        using step(1,2) by (rule scheduleLoop_step)
      also have "\<dots> = (acc @ [?row]) @ scheduleLoop E r n m (k + 1) ?c []"
        using step(3) by blast
      also have "\<dots> = acc @ scheduleLoop E r n m (k + 1) ?c ([] @ [?row])"
        using step(3) [rule_format, of "[?row]"] by simp
      also have "\<dots> = acc @ scheduleLoop E r n m k b []"
        using scheduleLoop_step [OF step(1,2), of E r m "[]"] by simp
      finally show "scheduleLoop E r n m k b acc = acc @ scheduleLoop E r n m k b []" .
    qed
  qed
  then show ?thesis by blast
qed

lemma scheduleLoop_unfold:
  "scheduleLoop E r n m k b [] =
     (if k \<le> n \<and> b > 0.01 then
        fst (loopBody E r m k b) # scheduleLoop E r n m (k + 1) (snd (loopBody E r m k b)) []
      else [])"
proof (cases "k \<le> n \<and> b > 0.01")
  case False
  have "scheduleLoop E r n m k b [] = []" by (rule scheduleLoop_stop [OF False])
  with False show ?thesis by (simp only: if_not_P if_False)
next
  case True
  then have "scheduleLoop E r n m k b [] =
        scheduleLoop E r n m (k + 1) (snd (loopBody E r m k b)) ([] @ [fst (loopBody E r m k b)])"
    by (simp only: scheduleLoop_step)
  also have "\<dots> = fst (loopBody E r m k b) #
        scheduleLoop E r n m (k + 1) (snd (loopBody E r m k b)) []"
    by (subst scheduleLoop_append) simp
  finally show ?thesis using True by (simp only: simp_thms if_True)
qed

lemma loopBody_month: "month (fst (loopBody E r m k b)) = k"
  by (simp add: loopBody_def Let_def case_prod_beta)

lemma loopBody_opening: "openingBalance (fst (loopBody E r m k b)) = b"
  by (simp add: loopBody_def Let_def case_prod_beta)

lemma loopBody_snd_nonneg: "0 \<le> snd (loopBody E r m k b)"
  by (simp add: loopBody_def Let_def case_prod_beta)

lemma loopBody_closing: "closingBalance (fst (loopBody E r m k b)) = snd (loopBody E r m k b)"
  by (simp add: loopBody_def Let_def case_prod_beta)


lemma loopBody_principal:
  "principal (fst (loopBody E r m k b)) = max 0 (min (E - b * r) b)"
  by (auto simp add: loopBody_def Let_def case_prod_beta max_def)

lemma loopBody_snd:
  "snd (loopBody E r m k b) = max 0 (b - max 0 (min (E - b * r) b) - prepaymentAt m k)"
  by (auto simp add: loopBody_def Let_def case_prod_beta max_def)

lemma loopBody_prepayment:
  "prepayment (fst (loopBody E r m k b)) =
     max 0 (if b - max 0 (min (E - b * r) b) - prepaymentAt m k < 0
            then b - max 0 (min (E - b * r) b) else prepaymentAt m k)"
  by (auto simp add: loopBody_def Let_def case_prod_beta max_def)




lemma loopBody_snd_le:
  assumes "0 < b" and "0 \<le> prepaymentAt m k"
  shows "snd (loopBody E r m k b) \<le> b"
  using assms by (simp add: loopBody_snd)





lemma scheduleLoop_length_le: "length (scheduleLoop E r n m k b []) \<le> nat (n + 1 - k)"
proof (induction k b rule: rows_induct [where n = n and E = E and r = r and m = m])
  case (stop k b)
  then show ?case by (simp add: scheduleLoop_stop)
next
  case (step k b)
  have u: "scheduleLoop E r n m k b [] =
        fst (loopBody E r m k b) # scheduleLoop E r n m (k + 1) (snd (loopBody E r m k b)) []"
    using step(1,2) by (subst scheduleLoop_unfold) simp
  show ?case unfolding u using step(1,3) by simp
qed

lemma scheduleLoop_chain:
  "(scheduleLoop E r n m k b [] \<noteq> [] \<longrightarrow>
      openingBalance (hd (scheduleLoop E r n m k b [])) = b \<and>
      month (hd (scheduleLoop E r n m k b [])) = k) \<and>
   (\<forall>i. Suc i < length (scheduleLoop E r n m k b []) \<longrightarrow>
      closingBalance (scheduleLoop E r n m k b [] ! i) =
      openingBalance (scheduleLoop E r n m k b [] ! Suc i) \<and>
      month (scheduleLoop E r n m k b [] ! Suc i) = month (scheduleLoop E r n m k b [] ! i) + 1)"
proof (induction k b rule: rows_induct [where n = n and E = E and r = r and m = m])
  case (stop k b)
  then show ?case by (simp add: scheduleLoop_stop)
next
  case (step k b)
  let ?row = "fst (loopBody E r m k b)" and ?c = "snd (loopBody E r m k b)"
  let ?rest = "scheduleLoop E r n m (k + 1) ?c []"
  have u: "scheduleLoop E r n m k b [] = ?row # ?rest"
    using step(1,2) by (subst scheduleLoop_unfold) simp
  have hd: "?rest \<noteq> [] \<longrightarrow> openingBalance (hd ?rest) = ?c \<and> month (hd ?rest) = k + 1"
    using step(3) by blast
  have tl: "\<forall>i. Suc i < length ?rest \<longrightarrow>
      closingBalance (?rest ! i) = openingBalance (?rest ! Suc i) \<and>
      month (?rest ! Suc i) = month (?rest ! i) + 1"
    using step(3) by blast
  have "closingBalance ((?row # ?rest) ! i) = openingBalance ((?row # ?rest) ! Suc i) \<and>
        month ((?row # ?rest) ! Suc i) = month ((?row # ?rest) ! i) + 1"
    if "Suc i < length (?row # ?rest)" for i
  proof (cases i)
    case 0
    with that have ne: "?rest \<noteq> []" by auto
    then have "?rest ! 0 = hd ?rest" by (simp add: hd_conv_nth)
    with 0 hd ne show ?thesis by (simp add: loopBody_closing loopBody_month)
  next
    case (Suc j)
    with that tl show ?thesis by simp
  qed
  then show ?case unfolding u by (simp add: loopBody_opening loopBody_month)
qed


lemma generateAmortizationSchedule_loop:
  assumes "0 < P" and "0 < n"
  shows "generateAmortizationSchedule P a n m =
         scheduleLoop (calculateEMI P a n) (if 0 < a then a / 12 / 100 else 0) n m 1 P []"
  using assms by (simp add: generateAmortizationSchedule_def Let_def)

lemma example_prepaid:
  "generateAmortizationSchedule 1200 0 3 [2 \<mapsto> 1000] =
     [\<lparr>month = 1, openingBalance = 1200, interest = 0, principal = 400, prepayment = 0,
        totalPayment = 400, closingBalance = 800\<rparr>,
      \<lparr>month = 2, openingBalance = 800, interest = 0, principal = 400, prepayment = 400,
        totalPayment = 800, closingBalance = 0\<rparr>]"
  by (simp add: generateAmortizationSchedule_def calculateEMI_def scheduleLoop_unfold
        loopBody_def prepaymentAt_def Let_def)


section \<open>Rounding to the nearest double\<close>

lemmas round64_eval = round64_def roundPos_def roundHalfEven_def scaleDown.simps scaleUp.simps
  Let_def




lemma roundHalfEven_ge:
  assumes "of_int n \<le> x"
  shows "n \<le> roundHalfEven x"
proof -
  have "n \<le> \<lfloor>x\<rfloor>" using assms by (simp add: le_floor_iff)
  moreover have "\<lfloor>x\<rfloor> \<le> roundHalfEven x"
    unfolding roundHalfEven_def Let_def by simp
  ultimately show ?thesis by linarith
qed



lemma scaleDown_props:
  "2 ^ 52 \<le> x \<Longrightarrow> e0 \<le> 971 \<Longrightarrow> scaleDown x e0 = (m, e) \<Longrightarrow>
     e0 \<le> e \<and> e \<le> 971 \<and> x * 2 powi e0 = m * 2 powi e \<and> (m < 2 ^ 53 \<or> e = 971) \<and> 2 ^ 52 \<le> m"
proof (induction x e0 rule: scaleDown.induct)
  case (1 x e0)
  show ?case
  proof (cases "2 ^ 53 \<le> x \<and> e0 < 971")
    case False
    then have "scaleDown x e0 = (x, e0)" by (subst scaleDown.simps) simp
    with "1.prems" False show ?thesis by auto
  next
    case True
    then have s: "scaleDown x e0 = scaleDown (x / 2) (e0 + 1)" by (subst scaleDown.simps) simp
    have "2 ^ 52 \<le> x / 2" using True by simp
    moreover have "e0 + 1 \<le> 971" using True by simp
    moreover have "scaleDown (x / 2) (e0 + 1) = (m, e)" using s "1.prems"(3) by simp
    ultimately have ih: "e0 + 1 \<le> e \<and> e \<le> 971 \<and> x / 2 * 2 powi (e0 + 1) = m * 2 powi e \<and>
        (m < 2 ^ 53 \<or> e = 971) \<and> 2 ^ 52 \<le> m"
      using "1.IH" [OF True] by blast
    have "x / 2 * 2 powi (e0 + 1) = x * 2 powi e0"
      by (simp add: power_int_add)
    with ih show ?thesis by auto
  qed
qed

lemma scaleUp_props:
  "0 < x \<Longrightarrow> x < 2 ^ 53 \<Longrightarrow> - 1074 \<le> e0 \<Longrightarrow> scaleUp x e0 = (m, e) \<Longrightarrow>
     - 1074 \<le> e \<and> e \<le> e0 \<and> x * 2 powi e0 = m * 2 powi e \<and> m < 2 ^ 53 \<and>
     (2 ^ 52 \<le> m \<or> e = - 1074) \<and> 0 < m"
proof (induction x e0 rule: scaleUp.induct)
  case (1 x e0)
  show ?case
  proof (cases "x < 2 ^ 52 \<and> - 1074 < e0")
    case False
    then have "scaleUp x e0 = (x, e0)" by (subst scaleUp.simps) simp
    with "1.prems" False show ?thesis by auto
  next
    case True
    then have s: "scaleUp x e0 = scaleUp (x * 2) (e0 - 1)" by (subst scaleUp.simps) simp
    have "0 < x * 2" using "1.prems"(1) by simp
    moreover have "x * 2 < 2 ^ 53" using True by simp
    moreover have "- 1074 \<le> e0 - 1" using True by simp
    moreover have "scaleUp (x * 2) (e0 - 1) = (m, e)" using s "1.prems"(4) by simp
    ultimately have ih: "- 1074 \<le> e \<and> e \<le> e0 - 1 \<and> x * 2 * 2 powi (e0 - 1) = m * 2 powi e \<and>
        m < 2 ^ 53 \<and> (2 ^ 52 \<le> m \<or> e = - 1074) \<and> 0 < m"
      using "1.IH" [OF True] by blast
    have "x * 2 * 2 powi (e0 - 1) = x * 2 powi e0"
      by (simp add: power_int_diff)
    with ih show ?thesis by auto
  qed
qed

lemma scaled_value:
  "(if 0 \<le> e then Fin (k * 2 ^ nat e) else Fin (k / 2 ^ nat (- e))) = Fin (k * 2 powi e)"
proof (cases "0 \<le> e")
  case True
  then show ?thesis by (simp add: power_int_nonneg_exp)
next
  case False
  then have "0 \<le> - e" by simp
  then have "(2::real) powi (- e) = 2 ^ nat (- e)" by (rule power_int_nonneg_exp)
  moreover have "(2::real) powi e = 1 / 2 powi (- e)"
    using power_int_minus_divide [of "2::real" "- e"] by simp
  ultimately have "(2::real) powi e = 1 / 2 ^ nat (- e)" by simp
  with False show ?thesis by simp
qed

lemma roundPos_cases:
  assumes "0 < x"
  shows "\<exists>m e. x = m * 2 powi e \<and> - 1074 \<le> e \<and> e \<le> 971 \<and>
    (m < 2 ^ 53 \<or> e = 971) \<and> (2 ^ 52 \<le> m \<or> e = - 1074) \<and> 0 < m \<and>
    roundPos x = (if 2 ^ 53 \<le> roundHalfEven m \<and> 971 \<le> e then PInf
                  else Fin (of_int (roundHalfEven m) * 2 powi e))"
proof (cases "2 ^ 53 \<le> x")
  case True
  obtain m e where s: "scaleDown x 0 = (m, e)" by (cases "scaleDown x 0")
  have x52: "2 ^ 52 \<le> x" using True by simp
  have e0: "(0::int) \<le> 971" by simp
  have p: "0 \<le> e \<and> e \<le> 971 \<and> x * 2 powi 0 = m * 2 powi e \<and> (m < 2 ^ 53 \<or> e = 971) \<and> 2 ^ 52 \<le> m"
    by (rule scaleDown_props [OF x52 e0 s])
  have r: "roundPos x = (if 2 ^ 53 \<le> roundHalfEven m \<and> 971 \<le> e then PInf
                       else Fin (of_int (roundHalfEven m) * 2 powi e))"
    using True s by (simp add: roundPos_def Let_def scaled_value)
  have "(0::real) < 2 ^ 52" by simp
  with p have m0: "0 < m" by linarith
  have xe: "x = m * 2 powi e" using p by simp
  have e1: "- 1074 \<le> e" using p by linarith
  show ?thesis
    using xe e1 p m0 r by blast
next
  case False
  obtain m e where s: "scaleUp x 0 = (m, e)" by (cases "scaleUp x 0")
  have x53: "x < 2 ^ 53" using False by simp
  have e0: "- 1074 \<le> (0::int)" by simp
  have p: "- 1074 \<le> e \<and> e \<le> 0 \<and> x * 2 powi 0 = m * 2 powi e \<and> m < 2 ^ 53 \<and>
     (2 ^ 52 \<le> m \<or> e = - 1074) \<and> 0 < m"
    by (rule scaleUp_props [OF assms x53 e0 s])
  have r: "roundPos x = (if 2 ^ 53 \<le> roundHalfEven m \<and> 971 \<le> e then PInf
                       else Fin (of_int (roundHalfEven m) * 2 powi e))"
    using False s by (simp add: roundPos_def Let_def scaled_value)
  have xe: "x = m * 2 powi e" using p by simp
  have e2: "e \<le> 971" using p by linarith
  show ?thesis
    using xe e2 p r by blast
qed


lemma roundPos_nonneg:
  assumes "0 < x"
  shows "leN (Fin 0) (roundPos x)"
proof -
  from roundPos_cases [OF assms]
  obtain m e where m0: "0 < m"
    and rx: "roundPos x = (if 2 ^ 53 \<le> roundHalfEven m \<and> 971 \<le> e then PInf
                       else Fin (of_int (roundHalfEven m) * 2 powi e))"
    by (elim exE conjE)
  have "0 \<le> roundHalfEven m" using m0 by (intro roundHalfEven_ge, simp)
  then have "0 \<le> of_int (roundHalfEven m) * (2::real) powi e" by simp
  then show ?thesis unfolding rx by auto
qed

lemma roundPos_not_NaN: "0 < x \<Longrightarrow> roundPos x \<noteq> NaN"
  using roundPos_nonneg [of x] by auto





section \<open>The loop, binary64 arithmetic\<close>























section \<open>Concrete runs in binary64 arithmetic\<close>



text \<open>
  The same loan with a prepayment of \<open>10\<^sup>2\<^sup>0\<close> in month 1. The tentative closing balance
  \<open>800 - 10\<^sup>2\<^sup>0\<close> rounds to \<open>- 10\<^sup>2\<^sup>0\<close>, so line 51 records the prepayment
  \<open>10\<^sup>2\<^sup>0 + (- 10\<^sup>2\<^sup>0) = 0\<close>.
\<close>

lemma absorbed_schedule:
  "generateAmortizationSchedule64 pow (Fin 1200) (Fin 0) 3 [1 \<mapsto> Fin (10 ^ 20)] =
     [\<lparr>month = 1, openingBalance = Fin 1200, interest = Fin 0, principal = Fin 400,
        prepayment = Fin 0, totalPayment = Fin 400, closingBalance = Fin 0\<rparr>]"
  by (simp add: generateAmortizationSchedule64_def calculateEMI64_def scheduleLoop64.simps
      loopBody64_def prepaymentAt64_def gtN_def subN_def minN_def maxN_def round64_eval)






section \<open>The installment formula\<close>




section \<open>The rows of a schedule\<close>










section \<open>Consecutive rows, prepayments, guards and negative rates\<close>

text \<open>
  C5: for every pair of consecutive rows of a generated schedule, the closingBalance of the
  earlier row is the openingBalance of the later one.
\<close>

theorem closing_is_next_opening:
  assumes "Suc i < length (generateAmortizationSchedule P a n m)"
  shows "closingBalance (generateAmortizationSchedule P a n m ! i) =
         openingBalance (generateAmortizationSchedule P a n m ! Suc i)"
proof (cases "P \<le> 0 \<or> n \<le> 0")
  case True
  with assms show ?thesis by (simp add: generateAmortizationSchedule_def)
next
  case False
  define E where "E = calculateEMI P a n"
  define r where "r = (if 0 < a then a / 12 / 100 else 0)"
  have s: "generateAmortizationSchedule P a n m = scheduleLoop E r n m 1 P []"
    using False by (simp add: generateAmortizationSchedule_loop E_def r_def)
  show ?thesis using assms scheduleLoop_chain [of E r n m 1 P] unfolding s by blast
qed

theorem closing_is_next_opening_witness:
  "closingBalance (generateAmortizationSchedule 1200 0 3 [2 \<mapsto> 1000] ! 0) = 800 \<and>
   openingBalance (generateAmortizationSchedule 1200 0 3 [2 \<mapsto> 1000] ! Suc 0) = 800"
proof -
  have h: "Suc 0 < length (generateAmortizationSchedule 1200 0 3 [2 \<mapsto> 1000])"
    by (simp add: example_prepaid)
  show ?thesis using closing_is_next_opening [OF h] by (simp add: example_prepaid)
qed



text \<open>
  C8: when the principal or the tenure is not positive, \<^verbatim>\<open>calculateEMI\<close> returns 0 and
  \<^verbatim>\<open>generateAmortizationSchedule\<close> returns the empty list, whatever the rate and the
  prepayment map are. Both functions are total: the source has no \<^verbatim>\<open>throw\<close>.
\<close>

theorem nonpositive_inputs:
  assumes "P \<le> 0 \<or> n \<le> 0"
  shows "calculateEMI P a n = 0 \<and> generateAmortizationSchedule P a n m = []"
  using assms by (auto simp: calculateEMI_def generateAmortizationSchedule_def)

theorem nonpositive_inputs_witness:
  "calculateEMI 0 10 12 = 0 \<and> generateAmortizationSchedule 0 10 12 [2 \<mapsto> 1000] = [] \<and>
   calculateEMI 1200 10 0 = 0 \<and> generateAmortizationSchedule 1200 10 0 [2 \<mapsto> 1000] = [] \<and>
   calculateEMI (- 5) (- 1) (- 3) = 0 \<and> generateAmortizationSchedule (- 5) (- 1) (- 3) Map.empty = []"
proof -
  have h1: "(0::real) \<le> 0 \<or> (12::int) \<le> 0" by simp
  have h2: "(1200::real) \<le> 0 \<or> (0::int) \<le> 0" by simp
  have h3: "(- 5::real) \<le> 0 \<or> (- 3::int) \<le> 0" by simp
  show ?thesis
    using nonpositive_inputs [OF h1, of 10 "[2 \<mapsto> 1000]"]
      nonpositive_inputs [OF h2, of 10 "[2 \<mapsto> 1000]"]
      nonpositive_inputs [OF h3, of "- 1" Map.empty]
    by simp
qed



section \<open>Whole schedules\<close>




text \<open>
  C7: the run with the prepayment \<open>10\<^sup>2\<^sup>0\<close> in month 1 closes the loan of 1200 in its
  only row, and the recorded principal and prepayment of that row add up to 400.
\<close>

theorem absorbed_prepayment_sum:
  "ltN (Fin 0) (Fin 1200) \<and> ltN (Fin 0) (Fin (10 ^ 20)) \<and>
   map (\<lambda>\<rho>. addN (principal \<rho>) (prepayment \<rho>))
     (generateAmortizationSchedule64 mathPow (Fin 1200) (Fin 0) 3 [1 \<mapsto> Fin (10 ^ 20)]) = [Fin 400] \<and>
   closingBalance (last (generateAmortizationSchedule64 mathPow (Fin 1200) (Fin 0) 3 [1 \<mapsto> Fin (10 ^ 20)])) =
     Fin 0"
  unfolding absorbed_schedule by (simp add: round64_eval)

end
